theory Spec2Isabelle
  imports Main "HOL-Library.Sublist" "HOL-Library.AList" "HOL-Library.Multiset"
begin

section \<open>The license check of wwhrd (cli.go)\<close>

text \<open>
  This theory embeds \<^verbatim>\<open>Check.Execute\<close> and \<^verbatim>\<open>rootDir\<close> of \<^verbatim>\<open>cli.go\<close>.
  Go strings are byte sequences and become \<^typ>\<open>string\<close>; a Go \<^verbatim>\<open>error\<close> is a value of
  the datatype \<open>error\<close> and \<^verbatim>\<open>nil\<close> is \<^const>\<open>None\<close>; the report file and the
  log are explicit state. The collaborators that live outside \<^verbatim>\<open>cli.go\<close> (the
  configuration reader, the import walker, the license detector and the operating system)
  are fields of a record \<open>World\<close>.
\<close>

subsection \<open>Functions of package strings\<close>

definition HasPrefix :: "string \<Rightarrow> string \<Rightarrow> bool" where
  \<comment> \<open>\<^verbatim>\<open>strings.HasPrefix(s, prefix)\<close>\<close>
  "HasPrefix s p = prefix p s"

definition HasSuffix :: "string \<Rightarrow> string \<Rightarrow> bool" where
  \<comment> \<open>\<^verbatim>\<open>strings.HasSuffix(s, suffix)\<close>\<close>
  "HasSuffix s x = suffix x s"

definition TrimRight :: "string \<Rightarrow> string \<Rightarrow> string" where
  \<comment> \<open>\<^verbatim>\<open>strings.TrimRight(s, cutset)\<close>: every trailing character that occurs in the
      cutset is removed. The cutsets used here are ASCII, where bytes and code points agree.\<close>
  "TrimRight s cutset = rev (dropWhile (\<lambda>c. c \<in> set cutset) (rev s))"

definition TrimSuffix :: "string \<Rightarrow> string \<Rightarrow> string" where
  \<comment> \<open>\<^verbatim>\<open>strings.TrimSuffix(s, suffix)\<close>: the one trailing occurrence of the suffix is
      removed. \<^verbatim>\<open>cli.go\<close> does not call it; it is what "strip the marker" says in words.\<close>
  "TrimSuffix s x = (if suffix x s then take (length s - length x) s else s)"

subsection \<open>Go maps from string to bool\<close>

text \<open>
  A \<^verbatim>\<open>map[string]bool\<close> is an association list with distinct keys. The order of the
  list stands for the order in which one \<^verbatim>\<open>range\<close> over the map yields its keys, which
  Go leaves unspecified.
\<close>

type_synonym gomap = "(string \<times> bool) list"

definition make_map :: gomap where
  \<comment> \<open>\<^verbatim>\<open>make(map[string]bool)\<close>\<close>
  "make_map = []"

definition assign :: "gomap \<Rightarrow> string \<Rightarrow> bool \<Rightarrow> gomap" where
  \<comment> \<open>\<^verbatim>\<open>m[k] = v\<close>\<close>
  "assign m k v = AList.update k v m"

definition index :: "gomap \<Rightarrow> string \<Rightarrow> bool" where
  \<comment> \<open>\<^verbatim>\<open>m[k]\<close>: the zero value \<^verbatim>\<open>false\<close> for an absent key\<close>
  "index m k = (case map_of m k of Some b \<Rightarrow> b | None \<Rightarrow> False)"

definition exists :: "gomap \<Rightarrow> string \<Rightarrow> bool" where
  \<comment> \<open>the second result of \<^verbatim>\<open>_, exists := m[k]\<close>\<close>
  "exists m k = (map_of m k \<noteq> None)"

definition len :: "gomap \<Rightarrow> nat" where
  "len m = length m"

definition keys :: "gomap \<Rightarrow> string list" where
  "keys m = map fst m"

subsection \<open>Data\<close>

text \<open>
  Modelled from the spec: the declaration of the configuration struct returned by
  \<^verbatim>\<open>ReadConfig\<close> is not in \<^verbatim>\<open>cli.go\<close>; the code reads its three string lists.
\<close>

record Config =
  Whitelist :: "string list"
  Blacklist :: "string list"
  Exceptions :: "string list"

text \<open>
  Modelled from the spec: the declaration of the license struct returned by
  \<^verbatim>\<open>GetLicenses\<close> is not in \<^verbatim>\<open>cli.go\<close>; the code reads its fields \<^verbatim>\<open>Type\<close> and
  \<^verbatim>\<open>Text\<close>.
\<close>

record License =
  Type :: string
  Text :: string

record Check =
  File :: string
  ReportOut :: string
  NoColor :: bool

datatype error =
  External string
    \<comment> \<open>an error value handed over by a collaborator, named by its message\<close>
  | CantReadConfig error
    \<comment> \<open>\<^verbatim>\<open>fmt.Errorf("Can't read config file: %s", err)\<close>\<close>
  | NonApprovedLicenseFound
    \<comment> \<open>\<^verbatim>\<open>fmt.Errorf("Non-Approved license found")\<close>\<close>

subsection \<open>The report file\<close>

text \<open>
  An \<^verbatim>\<open>*os.File\<close> opened by \<^verbatim>\<open>os.Create\<close>: the bytes written so far, and what the
  operating system will answer to the coming writes. \<open>WriteErr n msg\<close> is a write that
  fails with the error \<open>External msg\<close> after \<open>n\<close> bytes; a write past the end of the
  script succeeds.
\<close>

datatype write_result = WriteOk | WriteErr nat string

record OsFile =
  content :: string
  script :: "write_result list"

definition WriteString :: "OsFile \<Rightarrow> string \<Rightarrow> OsFile \<times> error option" where
  "WriteString f s =
     (case script f of
        [] \<Rightarrow> (f\<lparr>content := content f @ s\<rparr>, None)
      | WriteOk # rest \<Rightarrow> (f\<lparr>content := content f @ s, script := rest\<rparr>, None)
      | WriteErr n msg # rest \<Rightarrow>
          (f\<lparr>content := content f @ take n s, script := rest\<rparr>, Some (External msg)))"

definition nl :: string where
  "nl = [CHR 0x0A]"

definition licenseReportHeader :: string where
  "licenseReportHeader =
     ''THE FOLLOWING SETS FORTH ATTRIBUTION NOTICES FOR THIRD PARTY SOFTWARE THAT MAY BE CONTAINED IN PORTIONS OF THE FLOW PROJECT''"

definition licenseReportTemplate :: "string \<Rightarrow> string \<Rightarrow> string" where
  \<comment> \<open>\<^verbatim>\<open>fmt.Sprintf(licenseReportTemplate, pkg, text)\<close>: both verbs are \<^verbatim>\<open>%s\<close>\<close>
  "licenseReportTemplate pkg text =
     nl @ nl @ ''---'' @ nl @ nl
     @ ''The following software may be included in this product: '' @ pkg
     @ ''. This software contains the following license and notice below:'' @ nl @ nl
     @ text @ nl"

subsection \<open>The collaborators\<close>

text \<open>
  A collaborator that fails answers \<open>Inl msg\<close>, which the caller sees as the Go error
  \<open>External msg\<close>.
\<close>

record World =
  ReadConfig :: "string \<Rightarrow> string + Config"
  Getwd :: "string + string"
  Lstat :: "string \<Rightarrow> string + bool"
    \<comment> \<open>the answer is whether \<^verbatim>\<open>info.Mode()&os.ModeSymlink != 0\<close>\<close>
  Readlink :: "string \<Rightarrow> string + string"
  WalkImports :: "string \<Rightarrow> string + string list"
  GetLicenses :: "string \<Rightarrow> string list \<Rightarrow> (string \<times> License) list"
    \<comment> \<open>the detected licenses, in the order in which the \<^verbatim>\<open>range\<close> of this run yields
        them: a list with distinct package names\<close>
  Create :: "string \<Rightarrow> string + OsFile"

definition rootDir :: "World \<Rightarrow> error + string" where
  "rootDir w =
     (case Getwd w of
        Inl m \<Rightarrow> Inl (External m)
      | Inr root \<Rightarrow>
          (case Lstat w root of
             Inl m \<Rightarrow> Inl (External m)
           | Inr symlink \<Rightarrow>
               if symlink then
                 (case Readlink w root of Inl m \<Rightarrow> Inl (External m) | Inr root' \<Rightarrow> Inr root')
               else Inr root))"

subsection \<open>The policy maps (lines 129 to 150)\<close>

record Policy =
  blacklist :: gomap
  whitelist :: gomap
  exceptions :: gomap
  exceptionsWildcard :: gomap

definition addException :: "string \<Rightarrow> gomap \<times> gomap \<Rightarrow> gomap \<times> gomap" where
  \<comment> \<open>the body of the loop over \<^verbatim>\<open>t.Exceptions\<close>; the pair is
      \<^verbatim>\<open>(exceptions, exceptionsWildcard)\<close>\<close>
  "addException v m =
     (if HasSuffix v ''/...'' then (fst m, assign (snd m) (TrimRight v ''/...'') True)
      else (assign (fst m) v True, snd m))"

definition buildPolicy :: "Config \<Rightarrow> Policy" where
  "buildPolicy t =
     (let bl = fold (\<lambda>v m. assign m v True) (Blacklist t) make_map;
          wl = fold (\<lambda>v m. assign m v True) (Whitelist t) make_map;
          ex = fold addException (Exceptions t) (make_map, make_map)
      in \<lparr>blacklist = bl, whitelist = wl, exceptions = fst ex, exceptionsWildcard = snd ex\<rparr>)"

subsection \<open>The loop over the packages (lines 167 to 209)\<close>

datatype Verdict =
  Approved
    \<comment> \<open>\<^verbatim>\<open>contextLogger.Info("Found Approved license")\<close>\<close>
  | Exceptioned
    \<comment> \<open>\<^verbatim>\<open>contextLogger.Warn("Found exceptioned package")\<close>\<close>
  | NonApproved
    \<comment> \<open>\<^verbatim>\<open>contextLogger.Error("Found Non-Approved license")\<close>\<close>

fun rangeWildcard :: "string list \<Rightarrow> string \<Rightarrow> bool" where
  \<comment> \<open>the loop over the keys of \<^verbatim>\<open>exceptionsWildcard\<close>: whether it reaches
      \<^verbatim>\<open>continue PackageList\<close>\<close>
  "rangeWildcard [] pkg = False"
| "rangeWildcard (wc # wcs) pkg = (if HasPrefix pkg wc then True else rangeWildcard wcs pkg)"

definition decide :: "Policy \<Rightarrow> string \<Rightarrow> License \<Rightarrow> Verdict" where
  \<comment> \<open>lines 183 to 206: which of the three log calls the loop body makes\<close>
  "decide p pkg lic =
     (if index (whitelist p) (Type lic) \<and> \<not> index (blacklist p) (Type lic) then Approved
      else if len (exceptionsWildcard p) > 0 \<and> rangeWildcard (keys (exceptionsWildcard p)) pkg
        then Exceptioned
      else if exists (exceptions p) pkg then Exceptioned
      else NonApproved)"

record LogCall =
  package :: string
  license :: string
  verdict :: Verdict

record State =
  err :: "error option"
  report :: "OsFile option"
  logs :: "LogCall list"

datatype flow = Continue | Return

definition body :: "Policy \<Rightarrow> string \<Rightarrow> License \<Rightarrow> State \<Rightarrow> flow \<times> State" where
  "body p pkg lic st =
     (let st1 = (case report st of
                   None \<Rightarrow> st
                 | Some f \<Rightarrow>
                     (let (f', e) = WriteString f (licenseReportTemplate pkg (Text lic))
                      in st\<lparr>report := Some f', err := e\<rparr>))
      in if report st \<noteq> None \<and> err st1 \<noteq> None then (Return, st1)
         else
           (let v = decide p pkg lic;
                st2 = st1\<lparr>logs := logs st1 @ [\<lparr>package = pkg, license = Type lic, verdict = v\<rparr>]\<rparr>
            in if v = NonApproved then (Continue, st2\<lparr>err := Some NonApprovedLicenseFound\<rparr>)
               else (Continue, st2)))"

fun PackageList :: "Policy \<Rightarrow> (string \<times> License) list \<Rightarrow> State \<Rightarrow> State" where
  \<comment> \<open>the labelled loop and the \<^verbatim>\<open>return err\<close> after it; the \<open>err\<close> of the final state is
      the error that \<^verbatim>\<open>Execute\<close> returns\<close>
  "PackageList p [] st = st"
| "PackageList p ((pkg, lic) # rest) st =
     (case body p pkg lic st of
        (Return, st') \<Rightarrow> st'
      | (Continue, st') \<Rightarrow> PackageList p rest st')"

subsection \<open>Execute\<close>

definition checkLicenses :: "Config \<Rightarrow> (string \<times> License) list \<Rightarrow> (string + OsFile) option \<Rightarrow> State" where
  \<comment> \<open>lines 129 to 211 of \<^verbatim>\<open>Execute\<close>. The third argument is \<^const>\<open>None\<close> when
      \<^verbatim>\<open>c.ReportOut\<close> is empty, and the answer of \<^verbatim>\<open>os.Create\<close> otherwise.\<close>
  "checkLicenses t lics created =
     (let p = buildPolicy t
      in case created of
           None \<Rightarrow> PackageList p lics \<lparr>err = None, report = None, logs = []\<rparr>
         | Some (Inl m) \<Rightarrow> \<lparr>err = Some (External m), report = None, logs = []\<rparr>
         | Some (Inr f) \<Rightarrow>
             (let (f', e) = WriteString f licenseReportHeader
              in if e \<noteq> None then \<lparr>err = e, report = Some f', logs = []\<rparr>
                 else PackageList p lics \<lparr>err = e, report = Some f', logs = []\<rparr>))"

definition Execute :: "Check \<Rightarrow> World \<Rightarrow> State" where
  \<comment> \<open>\<^verbatim>\<open>Check.Execute\<close>. The choice of the log formatter by \<^verbatim>\<open>c.NoColor\<close> changes how the
      log calls are printed, not which calls are made, and is left out; so is the deferred
      \<^verbatim>\<open>report.Close()\<close>, whose result the code drops.\<close>
  "Execute c w =
     (case ReadConfig w (File c) of
        Inl m \<Rightarrow> \<lparr>err = Some (CantReadConfig (External m)), report = None, logs = []\<rparr>
      | Inr t \<Rightarrow>
          (case rootDir w of
             Inl e \<Rightarrow> \<lparr>err = Some e, report = None, logs = []\<rparr>
           | Inr root \<Rightarrow>
               (case WalkImports w root of
                  Inl m \<Rightarrow> \<lparr>err = Some (External m), report = None, logs = []\<rparr>
                | Inr pkgs \<Rightarrow>
                    checkLicenses t (GetLicenses w root pkgs)
                      (if ReportOut c \<noteq> [] then Some (Create w (ReportOut c)) else None))))"

subsection \<open>Notions used in the statements\<close>

definition logCall :: "Policy \<Rightarrow> string \<times> License \<Rightarrow> LogCall" where
  \<comment> \<open>the log call that the loop body makes for one dependency\<close>
  "logCall p d = \<lparr>package = fst d, license = Type (snd d), verdict = decide p (fst d) (snd d)\<rparr>"

definition entry :: "string \<times> License \<Rightarrow> string" where
  \<comment> \<open>the report entry that the loop body writes for one dependency\<close>
  "entry d = licenseReportTemplate (fst d) (Text (snd d))"

definition writes_ok :: "nat \<Rightarrow> OsFile \<Rightarrow> bool" where
  \<comment> \<open>none of the next \<open>n\<close> writes to the file fails\<close>
  "writes_ok n f = list_all (\<lambda>r. r = WriteOk) (take n (script f))"

definition covered :: "Config \<Rightarrow> string \<Rightarrow> bool" where
  \<comment> \<open>an entry of the exception list covers the package: a wildcard entry by its trimmed
      prefix, any other entry by equality\<close>
  "covered t pkg =
     list_ex (\<lambda>v. if HasSuffix v ''/...'' then HasPrefix pkg (TrimRight v ''/...'') else pkg = v)
       (Exceptions t)"

section \<open>Lemmas about the maps and the decision\<close>

lemma index_assign: "index (assign m k v) k' = (if k' = k then v else index m k')"
  by (simp add: index_def assign_def update_conv')

lemma exists_assign: "exists (assign m k v) k' = (k' = k \<or> exists m k')"
  by (simp add: exists_def assign_def update_conv')

lemma keys_assign: "set (keys (assign m k v)) = insert k (set (keys m))"
  by (simp add: keys_def assign_def flip: dom_map_of_conv_image_fst) (simp add: update_conv')

lemma distinct_keys_assign: "distinct (keys m) \<Longrightarrow> distinct (keys (assign m k v))"
  by (simp add: keys_def assign_def distinct_update)

lemma index_fold_assign:
  "index (fold (\<lambda>v m. assign m v True) xs m) k = (k \<in> set xs \<or> index m k)"
  by (induction xs arbitrary: m) (auto simp: index_assign)

lemma index_make_map: "index make_map k = False"
  by (simp add: index_def make_map_def)

lemma rangeWildcard_iff: "rangeWildcard ks pkg = (\<exists>wc \<in> set ks. HasPrefix pkg wc)"
  by (induction ks) auto

lemma fold_addException_exists:
  "exists (fst (fold addException es m)) k =
     (exists (fst m) k \<or> (k \<in> set es \<and> \<not> HasSuffix k ''/...''))"
  by (induction es arbitrary: m) (auto simp: addException_def exists_assign)

lemma fold_addException_keys:
  "set (keys (snd (fold addException es m))) =
     set (keys (snd m)) \<union> {TrimRight v ''/...'' | v. v \<in> set es \<and> HasSuffix v ''/...''}"
  by (induction es arbitrary: m) (auto simp: addException_def keys_assign)

lemma wildcard_guard:
  "(0 < len m \<and> rangeWildcard (keys m) pkg) = (\<exists>wc \<in> set (keys m). HasPrefix pkg wc)"
  by (cases m) (auto simp: len_def keys_def rangeWildcard_iff)

lemma keys_make_map: "keys make_map = []"
  by (simp add: keys_def make_map_def)

lemma exists_make_map: "exists make_map k = False"
  by (simp add: exists_def make_map_def)

lemma decide_buildPolicy:
  "decide (buildPolicy t) pkg lic =
     (if Type lic \<in> set (Whitelist t) \<and> Type lic \<notin> set (Blacklist t) then Approved
      else if covered t pkg then Exceptioned else NonApproved)"
proof -
  let ?p = "buildPolicy t"
  have w: "index (whitelist ?p) k = (k \<in> set (Whitelist t))" for k
    by (simp add: buildPolicy_def Let_def index_fold_assign index_make_map)
  have b: "index (blacklist ?p) k = (k \<in> set (Blacklist t))" for k
    by (simp add: buildPolicy_def Let_def index_fold_assign index_make_map)
  have e: "exists (exceptions ?p) pkg = (pkg \<in> set (Exceptions t) \<and> \<not> HasSuffix pkg ''/...'')"
    by (simp add: buildPolicy_def Let_def fold_addException_exists exists_make_map)
  have x: "set (keys (exceptionsWildcard ?p)) =
      {TrimRight v ''/...'' | v. v \<in> set (Exceptions t) \<and> HasSuffix v ''/...''}"
    by (simp add: buildPolicy_def Let_def fold_addException_keys keys_make_map)
  have c: "covered t pkg =
      ((\<exists>wc \<in> set (keys (exceptionsWildcard ?p)). HasPrefix pkg wc) \<or> exists (exceptions ?p) pkg)"
    unfolding x e covered_def list_ex_iff by auto
  show ?thesis
    unfolding decide_def wildcard_guard w b c by simp
qed

section \<open>Lemmas about the loop\<close>

lemma WriteString_ok:
  "script f = [] \<or> hd (script f) = WriteOk \<Longrightarrow>
   WriteString f s = (f\<lparr>content := content f @ s, script := tl (script f)\<rparr>, None)"
  by (cases "script f") (auto simp: WriteString_def split: write_result.splits)

lemma WriteString_err:
  "script f = WriteErr n msg # rest \<Longrightarrow>
   WriteString f s = (f\<lparr>content := content f @ take n s, script := rest\<rparr>, Some (External msg))"
  by (simp add: WriteString_def)

lemma body_no_report:
  "report st = None \<Longrightarrow>
   body p pkg lic st =
     (Continue, st\<lparr>logs := logs st @ [logCall p (pkg, lic)],
                   err := (if decide p pkg lic = NonApproved then Some NonApprovedLicenseFound else err st)\<rparr>)"
  by (simp add: body_def Let_def logCall_def)

lemma body_report_ok:
  "report st = Some f \<Longrightarrow> script f = [] \<or> hd (script f) = WriteOk \<Longrightarrow>
   body p pkg lic st =
     (Continue, st\<lparr>report := Some (f\<lparr>content := content f @ entry (pkg, lic), script := tl (script f)\<rparr>),
                   logs := logs st @ [logCall p (pkg, lic)],
                   err := (if decide p pkg lic = NonApproved then Some NonApprovedLicenseFound else None)\<rparr>)"
  by (simp add: body_def Let_def logCall_def entry_def WriteString_ok)

lemma body_report_err:
  "report st = Some f \<Longrightarrow> script f = WriteErr n msg # rest \<Longrightarrow>
   body p pkg lic st =
     (Return, st\<lparr>report := Some (f\<lparr>content := content f @ take n (entry (pkg, lic)), script := rest\<rparr>),
                 err := Some (External msg)\<rparr>)"
  by (simp add: body_def Let_def entry_def WriteString_err)

lemma PackageList_no_report:
  "report st = None \<Longrightarrow>
   PackageList p lics st =
     st\<lparr>logs := logs st @ map (logCall p) lics,
        err := (if \<exists>d \<in> set lics. decide p (fst d) (snd d) = NonApproved
                then Some NonApprovedLicenseFound else err st)\<rparr>"
proof (induction lics arbitrary: st)
  case Nil
  then show ?case by simp
next
  case (Cons d lics)
  obtain pkg lic where d: "d = (pkg, lic)" by (cases d)
  show ?case
    using Cons.prems by (simp add: d body_no_report Cons.IH)
qed

lemma writes_ok_Suc:
  "writes_ok (Suc n) f \<Longrightarrow>
   (script f = [] \<or> hd (script f) = WriteOk) \<and> writes_ok n (f\<lparr>content := c, script := tl (script f)\<rparr>)"
  by (cases "script f") (auto simp: writes_ok_def)

lemma PackageList_report_ok:
  "report st = Some f \<Longrightarrow> writes_ok (length lics) f \<Longrightarrow>
   PackageList p lics st =
     st\<lparr>report := Some (f\<lparr>content := content f @ concat (map entry lics),
                           script := drop (length lics) (script f)\<rparr>),
        logs := logs st @ map (logCall p) lics,
        err := (if lics = [] then err st
                else if decide p (fst (last lics)) (snd (last lics)) = NonApproved
                then Some NonApprovedLicenseFound else None)\<rparr>"
proof (induction lics arbitrary: st f)
  case Nil
  then show ?case by simp
next
  case (Cons d lics)
  obtain pkg lic where d: "d = (pkg, lic)" by (cases d)
  let ?f = "f\<lparr>content := content f @ entry (pkg, lic), script := tl (script f)\<rparr>"
  from Cons.prems(2) have h: "script f = [] \<or> hd (script f) = WriteOk" and ok: "writes_ok (length lics) ?f"
    using writes_ok_Suc [of "length lics" f] by simp_all
  show ?case
    using Cons.prems(1) h Cons.IH [OF _ ok]
    by (simp add: d body_report_ok drop_Suc)
qed

lemma PackageList_write_fails:
  "report st = Some f \<Longrightarrow> script f = replicate j WriteOk @ WriteErr n msg # rest \<Longrightarrow>
   j < length lics \<Longrightarrow>
   PackageList p lics st =
     st\<lparr>report := Some (f\<lparr>content := content f @ concat (map entry (take j lics))
                                        @ take n (entry (lics ! j)),
                           script := rest\<rparr>),
        logs := logs st @ map (logCall p) (take j lics),
        err := Some (External msg)\<rparr>"
proof (induction lics arbitrary: st f j)
  case Nil
  then show ?case by simp
next
  case (Cons d lics)
  obtain pkg lic where d: "d = (pkg, lic)" by (cases d)
  show ?case
  proof (cases j)
    case 0
    with Cons.prems show ?thesis
      by (simp add: d body_report_err)
  next
    case (Suc i)
    let ?f = "f\<lparr>content := content f @ entry (pkg, lic), script := tl (script f)\<rparr>"
    from Cons.prems(2) Suc have h: "script f = [] \<or> hd (script f) = WriteOk"
      and s: "script ?f = replicate i WriteOk @ WriteErr n msg # rest"
      by simp_all
    from Cons.prems(3) Suc have i: "i < length lics" by simp
    show ?thesis
      using Cons.prems(1) h Cons.IH [OF _ s i] Suc
      by (simp add: d body_report_ok)
  qed
qed

section \<open>Lemmas about the run as a whole\<close>

lemma checkLicenses_no_report:
  "checkLicenses t lics None =
     \<lparr>err = (if \<exists>d \<in> set lics. decide (buildPolicy t) (fst d) (snd d) = NonApproved
              then Some NonApprovedLicenseFound else None),
      report = None,
      logs = map (logCall (buildPolicy t)) lics\<rparr>"
  by (simp add: checkLicenses_def Let_def PackageList_no_report)

lemma checkLicenses_create_fails:
  "checkLicenses t lics (Some (Inl m)) = \<lparr>err = Some (External m), report = None, logs = []\<rparr>"
  by (simp add: checkLicenses_def Let_def)

lemma checkLicenses_report_ok:
  assumes "writes_ok (Suc (length lics)) f"
  shows "checkLicenses t lics (Some (Inr f)) =
     \<lparr>err = (if lics \<noteq> [] \<and> decide (buildPolicy t) (fst (last lics)) (snd (last lics)) = NonApproved
              then Some NonApprovedLicenseFound else None),
      report = Some (f\<lparr>content := content f @ licenseReportHeader @ concat (map entry lics),
                        script := drop (Suc (length lics)) (script f)\<rparr>),
      logs = map (logCall (buildPolicy t)) lics\<rparr>"
proof -
  let ?f = "f\<lparr>content := content f @ licenseReportHeader, script := tl (script f)\<rparr>"
  from assms have h: "script f = [] \<or> hd (script f) = WriteOk" and ok: "writes_ok (length lics) ?f"
    using writes_ok_Suc [of "length lics" f] by simp_all
  show ?thesis
    using h by (simp add: checkLicenses_def Let_def WriteString_ok PackageList_report_ok [OF _ ok] drop_Suc)
qed

lemma checkLicenses_write_fails:
  assumes "script f = replicate j WriteOk @ WriteErr n msg # rest" and "j \<le> length lics"
  shows "checkLicenses t lics (Some (Inr f)) =
     \<lparr>err = Some (External msg),
      report = Some (f\<lparr>content := content f @ concat (take j (licenseReportHeader # map entry lics))
                                     @ take n ((licenseReportHeader # map entry lics) ! j),
                        script := rest\<rparr>),
      logs = map (logCall (buildPolicy t)) (take (j - 1) lics)\<rparr>"
proof (cases j)
  case 0
  with assms show ?thesis
    by (simp add: checkLicenses_def Let_def WriteString_err)
next
  case (Suc i)
  let ?f = "f\<lparr>content := content f @ licenseReportHeader, script := tl (script f)\<rparr>"
  from assms Suc have h: "script f = [] \<or> hd (script f) = WriteOk"
    and s: "script ?f = replicate i WriteOk @ WriteErr n msg # rest" and i: "i < length lics"
    by simp_all
  show ?thesis
    using h Suc i by (simp add: checkLicenses_def Let_def WriteString_ok PackageList_write_fails [OF _ s i] take_map)
qed

lemma Execute_checkLicenses:
  assumes "ReadConfig w (File c) = Inr t" and "rootDir w = Inr root" and "WalkImports w root = Inr pkgs"
  shows "Execute c w =
     checkLicenses t (GetLicenses w root pkgs)
       (if ReportOut c \<noteq> [] then Some (Create w (ReportOut c)) else None)"
  using assms by (simp add: Execute_def)

lemma body_err:
  assumes "body p pkg lic st = (fl, st')" and "decide p pkg lic \<noteq> NonApproved"
    and "err st \<noteq> Some NonApprovedLicenseFound"
  shows "err st' \<noteq> Some NonApprovedLicenseFound"
  using assms
  by (auto simp: body_def Let_def WriteString_def
      split: option.splits list.splits write_result.splits if_splits prod.splits)

lemma PackageList_err:
  assumes "\<forall>d \<in> set lics. decide p (fst d) (snd d) \<noteq> NonApproved"
    and "err st \<noteq> Some NonApprovedLicenseFound"
  shows "err (PackageList p lics st) \<noteq> Some NonApprovedLicenseFound"
  using assms
proof (induction lics arbitrary: st)
  case Nil
  then show ?case by simp
next
  case (Cons d lics)
  obtain pkg lic where d: "d = (pkg, lic)" by (cases d)
  obtain fl st' where b: "body p pkg lic st = (fl, st')" by (cases "body p pkg lic st")
  from Cons.prems d have "err st' \<noteq> Some NonApprovedLicenseFound"
    using body_err [OF b] by simp
  with Cons.prems Cons.IH [of st'] show ?case
    by (cases fl) (simp_all add: d b)
qed

lemma checkLicenses_err:
  assumes "\<forall>d \<in> set lics. decide (buildPolicy t) (fst d) (snd d) \<noteq> NonApproved"
  shows "err (checkLicenses t lics created) \<noteq> Some NonApprovedLicenseFound"
proof (cases created)
  case None
  with assms show ?thesis by (simp add: checkLicenses_no_report)
next
  case (Some a)
  show ?thesis
  proof (cases a)
    case (Inl m)
    with Some show ?thesis by (simp add: checkLicenses_create_fails)
  next
    case (Inr f)
    obtain f' e where w: "WriteString f licenseReportHeader = (f', e)"
      by (cases "WriteString f licenseReportHeader")
    then have e: "e \<noteq> Some NonApprovedLicenseFound"
      by (auto simp: WriteString_def split: list.splits write_result.splits)
    show ?thesis
      using Some Inr w e PackageList_err [OF assms, of "\<lparr>err = e, report = Some f', logs = []\<rparr>"]
      by (auto simp: checkLicenses_def Let_def)
  qed
qed

section \<open>The trailing wildcard marker\<close>

text \<open>
  Where the part of a wildcard entry before the marker is empty or ends in a character other
  than \<^verbatim>\<open>/\<close> and \<^verbatim>\<open>.\<close>, trimming by cutset and removing the suffix agree.
\<close>

lemma TrimRight_eq_TrimSuffix:
  assumes "HasSuffix v ''/...''" and "TrimSuffix v ''/...'' = [] \<or> last (TrimSuffix v ''/...'') \<notin> {CHR ''/'', CHR ''.''}"
  shows "TrimRight v ''/...'' = TrimSuffix v ''/...''"
proof -
  from assms(1) obtain u where v: "v = u @ ''/...''"
    by (auto simp: HasSuffix_def suffix_def)
  then have u: "TrimSuffix v ''/...'' = u"
    by (simp add: TrimSuffix_def suffix_def)
  have "dropWhile (\<lambda>c. c = CHR ''/'' \<or> c = CHR ''.'') (rev u) = rev u"
    using assms(2) unfolding u by (cases u rule: rev_cases) auto
  then show ?thesis
    unfolding u by (simp add: TrimRight_def v)
qed

section \<open>The claims\<close>

subsection \<open>C1: the returned error and the verdicts\<close>

text \<open>
  C1 says that \<^verbatim>\<open>Execute\<close> returns an error exactly when some dependency was found
  Non-Approved, with or without a report. The run below visits package \<^verbatim>\<open>a\<close> (GPL, not
  whitelisted) and then package \<^verbatim>\<open>b\<close> (MIT, whitelisted). With a report file whose writes
  all succeed the returned error is \<^verbatim>\<open>nil\<close>, although the verdict of \<^verbatim>\<open>a\<close> was
  Non-Approved: the write of the entry of \<^verbatim>\<open>b\<close> assigns its \<^verbatim>\<open>nil\<close> result to the same
  variable \<^verbatim>\<open>err\<close> that held the failure. Without a report the same run returns the
  failure.
\<close>

theorem report_sink_resets_failure:
  "err (Execute \<lparr>File = ''.wwhrd.yml'', ReportOut = ''report.txt'', NoColor = False\<rparr>
         \<lparr>ReadConfig = (\<lambda>_. Inr \<lparr>Whitelist = [''MIT''], Blacklist = [], Exceptions = []\<rparr>),
          Getwd = Inr ''/src'', Lstat = (\<lambda>_. Inr False), Readlink = (\<lambda>_. Inr ''/src''),
          WalkImports = (\<lambda>_. Inr [''a'', ''b'']),
          GetLicenses = (\<lambda>_ _. [(''a'', \<lparr>Type = ''GPL'', Text = ''gpl''\<rparr>),
                                  (''b'', \<lparr>Type = ''MIT'', Text = ''mit''\<rparr>)]),
          Create = (\<lambda>_. Inr \<lparr>content = [], script = []\<rparr>)\<rparr>) = None
   \<and> map verdict (logs (Execute \<lparr>File = ''.wwhrd.yml'', ReportOut = ''report.txt'', NoColor = False\<rparr>
         \<lparr>ReadConfig = (\<lambda>_. Inr \<lparr>Whitelist = [''MIT''], Blacklist = [], Exceptions = []\<rparr>),
          Getwd = Inr ''/src'', Lstat = (\<lambda>_. Inr False), Readlink = (\<lambda>_. Inr ''/src''),
          WalkImports = (\<lambda>_. Inr [''a'', ''b'']),
          GetLicenses = (\<lambda>_ _. [(''a'', \<lparr>Type = ''GPL'', Text = ''gpl''\<rparr>),
                                  (''b'', \<lparr>Type = ''MIT'', Text = ''mit''\<rparr>)]),
          Create = (\<lambda>_. Inr \<lparr>content = [], script = []\<rparr>)\<rparr>)) = [NonApproved, Approved]
   \<and> err (Execute \<lparr>File = ''.wwhrd.yml'', ReportOut = [], NoColor = False\<rparr>
         \<lparr>ReadConfig = (\<lambda>_. Inr \<lparr>Whitelist = [''MIT''], Blacklist = [], Exceptions = []\<rparr>),
          Getwd = Inr ''/src'', Lstat = (\<lambda>_. Inr False), Readlink = (\<lambda>_. Inr ''/src''),
          WalkImports = (\<lambda>_. Inr [''a'', ''b'']),
          GetLicenses = (\<lambda>_ _. [(''a'', \<lparr>Type = ''GPL'', Text = ''gpl''\<rparr>),
                                  (''b'', \<lparr>Type = ''MIT'', Text = ''mit''\<rparr>)]),
          Create = (\<lambda>_. Inr \<lparr>content = [], script = []\<rparr>)\<rparr>) = Some NonApprovedLicenseFound"
  by code_simp

subsection \<open>C2: Approved\<close>

text \<open>
  C2: for every dependency and policy, the verdict is Approved exactly when the license type
  is on the whitelist and not on the blacklist; a type on the blacklist is never Approved,
  also when it is on the whitelist.
\<close>

theorem approved_iff_whitelisted_not_blacklisted:
  "(decide (buildPolicy t) pkg lic = Approved
      \<longleftrightarrow> Type lic \<in> set (Whitelist t) \<and> Type lic \<notin> set (Blacklist t))
   \<and> (Type lic \<in> set (Blacklist t) \<longrightarrow> decide (buildPolicy t) pkg lic \<noteq> Approved)"
  by (simp add: decide_buildPolicy)

text \<open>
  C2 at a concrete input: the type MIT is on both lists, and the verdict is not Approved.
\<close>

theorem approved_iff_whitelisted_not_blacklisted_witness:
  "Type \<lparr>Type = ''MIT'', Text = ''''\<rparr> \<in> set (Blacklist \<lparr>Whitelist = [''MIT''], Blacklist = [''MIT''], Exceptions = []\<rparr>)
   \<and> Type \<lparr>Type = ''MIT'', Text = ''''\<rparr> \<in> set (Whitelist \<lparr>Whitelist = [''MIT''], Blacklist = [''MIT''], Exceptions = []\<rparr>)
   \<and> decide (buildPolicy \<lparr>Whitelist = [''MIT''], Blacklist = [''MIT''], Exceptions = []\<rparr>)
        ''pkgA'' \<lparr>Type = ''MIT'', Text = ''''\<rparr> \<noteq> Approved"
  using approved_iff_whitelisted_not_blacklisted
    [of "\<lparr>Whitelist = [''MIT''], Blacklist = [''MIT''], Exceptions = []\<rparr>" "''pkgA''"
        "\<lparr>Type = ''MIT'', Text = ''''\<rparr>"]
  by simp

subsection \<open>C3: the two exception maps\<close>

text \<open>
  C3 says that exactly the marker \<^verbatim>\<open>/...\<close> is stripped from a wildcard entry. The code
  trims with the marker as a cutset, which also removes every \<^verbatim>\<open>/\<close> and \<^verbatim>\<open>.\<close> that
  precedes the marker: for the entry \<^verbatim>\<open>./...\<close> the key stored is the empty string, where
  removing the marker leaves \<^verbatim>\<open>.\<close>, and for \<^verbatim>\<open>example.com/v1./...\<close> the key stored is
  \<^verbatim>\<open>example.com/v1\<close>, where removing the marker leaves \<^verbatim>\<open>example.com/v1.\<close>.
\<close>

theorem wildcard_trim_overshoots:
  "keys (exceptionsWildcard (buildPolicy \<lparr>Whitelist = [], Blacklist = [], Exceptions = [''./...'']\<rparr>)) = [[]]
   \<and> TrimRight ''./...'' ''/...'' = []
   \<and> TrimSuffix ''./...'' ''/...'' = ''.''
   \<and> keys (exceptionsWildcard (buildPolicy \<lparr>Whitelist = [], Blacklist = [], Exceptions = [''example.com/v1./...'']\<rparr>)) = [''example.com/v1'']
   \<and> TrimSuffix ''example.com/v1./...'' ''/...'' = ''example.com/v1.''"
  by code_simp

subsection \<open>C4: exact exceptions\<close>

text \<open>
  C4 as stated fails: a package named by an exact exception entry whose license type is
  whitelisted and not blacklisted gets the verdict Approved, not Exceptioned, because the
  whitelist is tested first.
\<close>

theorem exact_exception_approved_counterexample:
  "''pkgA'' \<in> set (Exceptions \<lparr>Whitelist = [''MIT''], Blacklist = [], Exceptions = [''pkgA'']\<rparr>)
   \<and> exists (exceptions (buildPolicy \<lparr>Whitelist = [''MIT''], Blacklist = [], Exceptions = [''pkgA'']\<rparr>)) ''pkgA''
   \<and> decide (buildPolicy \<lparr>Whitelist = [''MIT''], Blacklist = [], Exceptions = [''pkgA'']\<rparr>)
        ''pkgA'' \<lparr>Type = ''MIT'', Text = ''''\<rparr> = Approved
   \<and> decide (buildPolicy \<lparr>Whitelist = [''MIT''], Blacklist = [], Exceptions = [''pkgA'']\<rparr>)
        ''pkgA'' \<lparr>Type = ''MIT'', Text = ''''\<rparr> \<noteq> Exceptioned"
  by code_simp

text \<open>
  C4, amended: for every dependency whose identifier equals an exception entry without the
  wildcard marker, whatever its license type, the verdict is never Non-Approved; it is Approved
  when the type is whitelisted and not blacklisted, and Exceptioned otherwise.
\<close>

theorem exact_exception_never_nonapproved:
  assumes "pkg \<in> set (Exceptions t)" and "\<not> HasSuffix pkg ''/...''"
  shows "decide (buildPolicy t) pkg lic \<noteq> NonApproved
     \<and> decide (buildPolicy t) pkg lic =
         (if Type lic \<in> set (Whitelist t) \<and> Type lic \<notin> set (Blacklist t) then Approved
          else Exceptioned)"
proof -
  from assms have "covered t pkg"
    unfolding covered_def list_ex_iff by (intro bexI [of _ pkg]) simp_all
  then show ?thesis
    by (simp add: decide_buildPolicy)
qed

text \<open>
  C4, amended, at a concrete input: the exception \<^verbatim>\<open>github.com/foo/bar\<close> with a GPL
  license and empty lists gives Exceptioned.
\<close>

theorem exact_exception_never_nonapproved_witness:
  "''github.com/foo/bar'' \<in> set (Exceptions \<lparr>Whitelist = [], Blacklist = [], Exceptions = [''github.com/foo/bar'']\<rparr>)
   \<and> \<not> HasSuffix ''github.com/foo/bar'' ''/...''
   \<and> decide (buildPolicy \<lparr>Whitelist = [], Blacklist = [], Exceptions = [''github.com/foo/bar'']\<rparr>)
        ''github.com/foo/bar'' \<lparr>Type = ''GPL'', Text = ''''\<rparr> = Exceptioned"
proof -
  have a: "''github.com/foo/bar'' \<in> set (Exceptions \<lparr>Whitelist = [], Blacklist = [], Exceptions = [''github.com/foo/bar'']\<rparr>)"
    by simp
  have b: "\<not> HasSuffix ''github.com/foo/bar'' ''/...''"
    by code_simp
  show ?thesis
    using a b exact_exception_never_nonapproved [OF a b, of "\<lparr>Type = ''GPL'', Text = ''''\<rparr>"]
    by simp
qed

subsection \<open>C5: every dependency is evaluated\<close>

text \<open>
  C5 as stated fails: when a write to the report fails, the loop is left at once, and the
  dependencies that were not yet visited get no verdict. Here the write for package
  \<^verbatim>\<open>b\<close> fails, and only package \<^verbatim>\<open>a\<close> has a verdict.
\<close>

theorem write_error_truncates_verdicts_counterexample:
  "map package (logs (checkLicenses \<lparr>Whitelist = [''MIT''], Blacklist = [], Exceptions = []\<rparr>
       [(''a'', \<lparr>Type = ''GPL'', Text = ''gpl''\<rparr>), (''b'', \<lparr>Type = ''MIT'', Text = ''mit''\<rparr>)]
       (Some (Inr \<lparr>content = [], script = [WriteOk, WriteOk, WriteErr 0 ''disk full'']\<rparr>)))) = [''a'']
   \<and> map fst [(''a'', \<lparr>Type = ''GPL'', Text = ''gpl''\<rparr>), (''b'', \<lparr>Type = ''MIT'', Text = ''mit''\<rparr>)]
       = [''a'', ''b'']"
  by code_simp

text \<open>
  C5, amended: for every dependency list and policy, when there is no report or no write to
  the report fails, the logged verdicts are exactly one per input dependency, in the order of
  the visit, whatever the verdicts are; the report, when there is one, holds the header and one
  entry per input dependency; and without a report the returned error is the Non-Approved
  failure exactly when some verdict is Non-Approved.
\<close>

theorem every_dependency_evaluated:
  assumes "created = None \<or> (\<exists>f. created = Some (Inr f) \<and> writes_ok (Suc (length lics)) f)"
  shows "logs (checkLicenses t lics created) = map (logCall (buildPolicy t)) lics
     \<and> map package (logs (checkLicenses t lics created)) = map fst lics
     \<and> (\<forall>f. created = Some (Inr f) \<longrightarrow>
           map_option content (report (checkLicenses t lics created))
             = Some (content f @ licenseReportHeader @ concat (map entry lics)))
     \<and> (created = None \<longrightarrow>
           (err (checkLicenses t lics created) = Some NonApprovedLicenseFound
              \<longleftrightarrow> (\<exists>c \<in> set (logs (checkLicenses t lics created)). verdict c = NonApproved)))"
proof -
  have p: "map package (map (logCall (buildPolicy t)) lics) = map fst lics"
    by (simp add: logCall_def comp_def)
  from assms show ?thesis
  proof
    assume "created = None"
    then show ?thesis
      using p by (auto simp: checkLicenses_no_report logCall_def)
  next
    assume "\<exists>f. created = Some (Inr f) \<and> writes_ok (Suc (length lics)) f"
    then obtain f where "created = Some (Inr f)" and "writes_ok (Suc (length lics)) f"
      by blast
    then show ?thesis
      using p by (simp add: checkLicenses_report_ok)
  qed
qed

text \<open>
  C5, amended, at a concrete input: two packages, the first one Non-Approved, with a report
  whose writes succeed and without a report.
\<close>

theorem every_dependency_evaluated_witness:
  "writes_ok (Suc (length [(''a'', \<lparr>Type = ''GPL'', Text = ''gpl''\<rparr>), (''b'', \<lparr>Type = ''MIT'', Text = ''mit''\<rparr>)]))
     \<lparr>content = [], script = []\<rparr>
   \<and> map package (logs (checkLicenses \<lparr>Whitelist = [''MIT''], Blacklist = [], Exceptions = []\<rparr>
       [(''a'', \<lparr>Type = ''GPL'', Text = ''gpl''\<rparr>), (''b'', \<lparr>Type = ''MIT'', Text = ''mit''\<rparr>)]
       (Some (Inr \<lparr>content = [], script = []\<rparr>)))) = [''a'', ''b'']
   \<and> (err (checkLicenses \<lparr>Whitelist = [''MIT''], Blacklist = [], Exceptions = []\<rparr>
       [(''a'', \<lparr>Type = ''GPL'', Text = ''gpl''\<rparr>), (''b'', \<lparr>Type = ''MIT'', Text = ''mit''\<rparr>)] None)
        = Some NonApprovedLicenseFound
      \<longleftrightarrow> (\<exists>c \<in> set (logs (checkLicenses \<lparr>Whitelist = [''MIT''], Blacklist = [], Exceptions = []\<rparr>
       [(''a'', \<lparr>Type = ''GPL'', Text = ''gpl''\<rparr>), (''b'', \<lparr>Type = ''MIT'', Text = ''mit''\<rparr>)] None)).
            verdict c = NonApproved))"
proof -
  let ?t = "\<lparr>Whitelist = [''MIT''], Blacklist = [], Exceptions = []\<rparr>"
  let ?lics = "[(''a'', \<lparr>Type = ''GPL'', Text = ''gpl''\<rparr>), (''b'', \<lparr>Type = ''MIT'', Text = ''mit''\<rparr>)]"
  let ?f = "\<lparr>content = [], script = []\<rparr>"
  have ok: "writes_ok (Suc (length ?lics)) ?f"
    by (simp add: writes_ok_def)
  have a: "Some (Inr ?f) = None \<or> (\<exists>f. Some (Inr ?f) = Some (Inr f) \<and> writes_ok (Suc (length ?lics)) f)"
    using ok by simp
  have b: "(None :: (string + OsFile) option) = None
      \<or> (\<exists>f. None = Some (Inr f) \<and> writes_ok (Suc (length ?lics)) f)"
    by simp
  show ?thesis
    using ok every_dependency_evaluated [OF a, of ?t] every_dependency_evaluated [OF b, of ?t]
    by (simp add: logCall_def)
qed

subsection \<open>C6: the report\<close>

text \<open>
  C6: for every dependency list, with a report file and no failing write, the report is what
  the file held, then the header once, then one entry per input dependency in the order of the
  visit; an entry is the template filled with the package name and then the license text, and
  does not depend on the policy.
\<close>

theorem report_header_then_entries:
  assumes "writes_ok (Suc (length lics)) f"
  shows "map_option content (report (checkLicenses t lics (Some (Inr f)))) =
     Some (content f @ licenseReportHeader
           @ concat (map (\<lambda>(pkg, lic). licenseReportTemplate pkg (Text lic)) lics))
   \<and> (\<forall>pkg text. licenseReportTemplate pkg text =
         nl @ nl @ ''---'' @ nl @ nl
         @ ''The following software may be included in this product: '' @ pkg
         @ ''. This software contains the following license and notice below:'' @ nl @ nl
         @ text @ nl)"
proof (intro conjI allI)
  have e: "(\<lambda>(pkg, lic). licenseReportTemplate pkg (Text lic)) = entry"
    by (auto simp: entry_def)
  show "map_option content (report (checkLicenses t lics (Some (Inr f)))) =
     Some (content f @ licenseReportHeader
           @ concat (map (\<lambda>(pkg, lic). licenseReportTemplate pkg (Text lic)) lics))"
    unfolding e using assms by (simp add: checkLicenses_report_ok)
next
  fix pkg notice
  show "licenseReportTemplate pkg notice =
         nl @ nl @ ''---'' @ nl @ nl
         @ ''The following software may be included in this product: '' @ pkg
         @ ''. This software contains the following license and notice below:'' @ nl @ nl
         @ notice @ nl"
    by (simp only: licenseReportTemplate_def)
qed

text \<open>
  C6 at a concrete input: two packages, one of them Non-Approved.
\<close>

theorem report_header_then_entries_witness:
  "writes_ok (Suc (length [(''a'', \<lparr>Type = ''GPL'', Text = ''gpl''\<rparr>), (''b'', \<lparr>Type = ''MIT'', Text = ''mit''\<rparr>)]))
     \<lparr>content = [], script = [WriteOk, WriteOk, WriteOk]\<rparr>
   \<and> map_option content (report (checkLicenses \<lparr>Whitelist = [''MIT''], Blacklist = [], Exceptions = []\<rparr>
       [(''a'', \<lparr>Type = ''GPL'', Text = ''gpl''\<rparr>), (''b'', \<lparr>Type = ''MIT'', Text = ''mit''\<rparr>)]
       (Some (Inr \<lparr>content = [], script = [WriteOk, WriteOk, WriteOk]\<rparr>)))) =
     Some (licenseReportHeader
           @ licenseReportTemplate ''a'' ''gpl'' @ licenseReportTemplate ''b'' ''mit'')"
proof -
  let ?lics = "[(''a'', \<lparr>Type = ''GPL'', Text = ''gpl''\<rparr>), (''b'', \<lparr>Type = ''MIT'', Text = ''mit''\<rparr>)]"
  let ?f = "\<lparr>content = [], script = [WriteOk, WriteOk, WriteOk]\<rparr>"
  have ok: "writes_ok (Suc (length ?lics)) ?f"
    by (simp add: writes_ok_def)
  show ?thesis
    using ok report_header_then_entries [OF ok, of "\<lparr>Whitelist = [''MIT''], Blacklist = [], Exceptions = []\<rparr>", THEN conjunct1]
    by simp
qed

subsection \<open>C7: the order of the visit\<close>

text \<open>
  C7 as stated fails: the loop visits the dependencies in the order in which the
  \<^verbatim>\<open>range\<close> over the map yields them, and nothing sorts them. Two enumerations of the same
  two-package map give two different reports and two different orders of log calls.
\<close>

theorem iteration_order_changes_report_counterexample:
  "mset [(''a'', \<lparr>Type = ''GPL'', Text = ''gpl''\<rparr>), (''b'', \<lparr>Type = ''MIT'', Text = ''mit''\<rparr>)]
     = mset [(''b'', \<lparr>Type = ''MIT'', Text = ''mit''\<rparr>), (''a'', \<lparr>Type = ''GPL'', Text = ''gpl''\<rparr>)]
   \<and> report (checkLicenses \<lparr>Whitelist = [''MIT''], Blacklist = [], Exceptions = []\<rparr>
       [(''a'', \<lparr>Type = ''GPL'', Text = ''gpl''\<rparr>), (''b'', \<lparr>Type = ''MIT'', Text = ''mit''\<rparr>)]
       (Some (Inr \<lparr>content = [], script = []\<rparr>)))
     \<noteq> report (checkLicenses \<lparr>Whitelist = [''MIT''], Blacklist = [], Exceptions = []\<rparr>
       [(''b'', \<lparr>Type = ''MIT'', Text = ''mit''\<rparr>), (''a'', \<lparr>Type = ''GPL'', Text = ''gpl''\<rparr>)]
       (Some (Inr \<lparr>content = [], script = []\<rparr>)))
   \<and> map package (logs (checkLicenses \<lparr>Whitelist = [''MIT''], Blacklist = [], Exceptions = []\<rparr>
       [(''a'', \<lparr>Type = ''GPL'', Text = ''gpl''\<rparr>), (''b'', \<lparr>Type = ''MIT'', Text = ''mit''\<rparr>)]
       (Some (Inr \<lparr>content = [], script = []\<rparr>)))) = [''a'', ''b'']
   \<and> map package (logs (checkLicenses \<lparr>Whitelist = [''MIT''], Blacklist = [], Exceptions = []\<rparr>
       [(''b'', \<lparr>Type = ''MIT'', Text = ''mit''\<rparr>), (''a'', \<lparr>Type = ''GPL'', Text = ''gpl''\<rparr>)]
       (Some (Inr \<lparr>content = [], script = []\<rparr>)))) = [''b'', ''a'']"
proof -
  have m: "mset [(''a'', \<lparr>Type = ''GPL'', Text = ''gpl''\<rparr>), (''b'', \<lparr>Type = ''MIT'', Text = ''mit''\<rparr>)]
     = mset [(''b'', \<lparr>Type = ''MIT'', Text = ''mit''\<rparr>), (''a'', \<lparr>Type = ''GPL'', Text = ''gpl''\<rparr>)]"
    by (simp add: add.commute)
  have ok: "writes_ok (Suc (length xs)) \<lparr>content = [], script = []\<rparr>" for xs :: "(string \<times> License) list"
    by (simp add: writes_ok_def)
  show ?thesis
    using m by (simp add: checkLicenses_report_ok [OF ok] entry_def licenseReportTemplate_def logCall_def)
qed

text \<open>
  C7, amended: for any two enumerations of the same dependency map, when there is no report
  or no write fails, the two runs make the same log calls up to order (each in the order of its
  own visit), the report of each run is the header followed by the entries in the order of its
  own visit, the entries being the same up to order, and without a report both runs return the
  same error.
\<close>

theorem verdicts_independent_of_order:
  assumes "mset lics1 = mset lics2"
    and "created = None \<or> (\<exists>f. created = Some (Inr f) \<and> writes_ok (Suc (length lics1)) f)"
  shows "mset (logs (checkLicenses t lics1 created)) = mset (logs (checkLicenses t lics2 created))
     \<and> logs (checkLicenses t lics1 created) = map (logCall (buildPolicy t)) lics1
     \<and> logs (checkLicenses t lics2 created) = map (logCall (buildPolicy t)) lics2
     \<and> (created = None \<longrightarrow> err (checkLicenses t lics1 created) = err (checkLicenses t lics2 created))
     \<and> (\<forall>f. created = Some (Inr f) \<longrightarrow>
           map_option content (report (checkLicenses t lics1 created))
             = Some (content f @ licenseReportHeader @ concat (map entry lics1))
         \<and> map_option content (report (checkLicenses t lics2 created))
             = Some (content f @ licenseReportHeader @ concat (map entry lics2))
         \<and> mset (map entry lics1) = mset (map entry lics2))"
proof -
  from assms(1) have len: "length lics1 = length lics2"
    by (rule mset_eq_length)
  from assms(1) have set: "set lics1 = set lics2"
    by (rule mset_eq_setD)
  have l: "mset (map (logCall (buildPolicy t)) lics1) = mset (map (logCall (buildPolicy t)) lics2)"
    and e: "mset (map entry lics1) = mset (map entry lics2)"
    using assms(1) by simp_all
  from assms(2) show ?thesis
  proof
    assume "created = None"
    then show ?thesis
      using l set by (simp add: checkLicenses_no_report)
  next
    assume "\<exists>f. created = Some (Inr f) \<and> writes_ok (Suc (length lics1)) f"
    then obtain f where c: "created = Some (Inr f)" and ok1: "writes_ok (Suc (length lics1)) f"
      by blast
    from ok1 len have ok2: "writes_ok (Suc (length lics2)) f"
      by simp
    show ?thesis
      using l e by (simp add: c checkLicenses_report_ok [OF ok1] checkLicenses_report_ok [OF ok2])
  qed
qed

text \<open>
  C7, amended, at a concrete input: the two enumerations of a two-package map.
\<close>

theorem verdicts_independent_of_order_witness:
  "mset [(''a'', \<lparr>Type = ''GPL'', Text = ''gpl''\<rparr>), (''b'', \<lparr>Type = ''MIT'', Text = ''mit''\<rparr>)]
     = mset [(''b'', \<lparr>Type = ''MIT'', Text = ''mit''\<rparr>), (''a'', \<lparr>Type = ''GPL'', Text = ''gpl''\<rparr>)]
   \<and> writes_ok (Suc (length [(''a'', \<lparr>Type = ''GPL'', Text = ''gpl''\<rparr>), (''b'', \<lparr>Type = ''MIT'', Text = ''mit''\<rparr>)]))
        \<lparr>content = [], script = []\<rparr>
   \<and> mset (logs (checkLicenses \<lparr>Whitelist = [''MIT''], Blacklist = [], Exceptions = []\<rparr>
       [(''a'', \<lparr>Type = ''GPL'', Text = ''gpl''\<rparr>), (''b'', \<lparr>Type = ''MIT'', Text = ''mit''\<rparr>)]
       (Some (Inr \<lparr>content = [], script = []\<rparr>))))
     = mset (logs (checkLicenses \<lparr>Whitelist = [''MIT''], Blacklist = [], Exceptions = []\<rparr>
       [(''b'', \<lparr>Type = ''MIT'', Text = ''mit''\<rparr>), (''a'', \<lparr>Type = ''GPL'', Text = ''gpl''\<rparr>)]
       (Some (Inr \<lparr>content = [], script = []\<rparr>))))"
proof -
  let ?l1 = "[(''a'', \<lparr>Type = ''GPL'', Text = ''gpl''\<rparr>), (''b'', \<lparr>Type = ''MIT'', Text = ''mit''\<rparr>)]"
  let ?l2 = "[(''b'', \<lparr>Type = ''MIT'', Text = ''mit''\<rparr>), (''a'', \<lparr>Type = ''GPL'', Text = ''gpl''\<rparr>)]"
  let ?f = "\<lparr>content = [], script = []\<rparr>"
  have m: "mset ?l1 = mset ?l2"
    by (simp add: add.commute)
  have ok: "writes_ok (Suc (length ?l1)) ?f"
    by (simp add: writes_ok_def)
  have a: "Some (Inr ?f) = None \<or> (\<exists>f. Some (Inr ?f) = Some (Inr f) \<and> writes_ok (Suc (length ?l1)) f)"
    using ok by simp
  have "mset (logs (checkLicenses \<lparr>Whitelist = [''MIT''], Blacklist = [], Exceptions = []\<rparr> ?l1 (Some (Inr ?f))))
     = mset (logs (checkLicenses \<lparr>Whitelist = [''MIT''], Blacklist = [], Exceptions = []\<rparr> ?l2 (Some (Inr ?f))))"
    using verdicts_independent_of_order [OF m a] by (rule conjunct1)
  with m ok show ?thesis
    by (intro conjI)
qed

subsection \<open>C8: unrecognized licenses\<close>

text \<open>
  C8 as stated fails: when the whitelist holds the empty string, a dependency whose license
  type is the empty string is Approved.
\<close>

theorem unrecognized_whitelisted_counterexample:
  "Type \<lparr>Type = [], Text = []\<rparr> = []
   \<and> decide (buildPolicy \<lparr>Whitelist = [[]], Blacklist = [], Exceptions = []\<rparr>)
        ''pkgX'' \<lparr>Type = [], Text = []\<rparr> = Approved"
  by code_simp

text \<open>
  C8, amended: for every dependency whose license type is the empty string, when the
  whitelist does not hold the empty string (or the blacklist holds it), the verdict is not
  Approved: it is Exceptioned when an exact or wildcard exception covers the package and
  Non-Approved otherwise.
\<close>

theorem unrecognized_never_approved:
  assumes "Type lic = []" and "[] \<notin> set (Whitelist t) \<or> [] \<in> set (Blacklist t)"
  shows "decide (buildPolicy t) pkg lic \<noteq> Approved
     \<and> decide (buildPolicy t) pkg lic = (if covered t pkg then Exceptioned else NonApproved)"
  using assms by (auto simp: decide_buildPolicy)

text \<open>
  C8, amended, at a concrete input: empty lists and a package with the empty license type
  give Non-Approved.
\<close>

theorem unrecognized_never_approved_witness:
  "Type \<lparr>Type = [], Text = []\<rparr> = []
   \<and> [] \<notin> set (Whitelist \<lparr>Whitelist = [], Blacklist = [], Exceptions = []\<rparr>)
   \<and> \<not> covered \<lparr>Whitelist = [], Blacklist = [], Exceptions = []\<rparr> ''pkgX''
   \<and> decide (buildPolicy \<lparr>Whitelist = [], Blacklist = [], Exceptions = []\<rparr>)
        ''pkgX'' \<lparr>Type = [], Text = []\<rparr> = NonApproved"
  using unrecognized_never_approved
    [of "\<lparr>Type = [], Text = []\<rparr>" "\<lparr>Whitelist = [], Blacklist = [], Exceptions = []\<rparr>" "''pkgX''"]
  by (simp add: covered_def)

subsection \<open>C9: a failing write\<close>

text \<open>
  C9: for every run with a report file, when the write number \<open>j\<close> fails (the header is
  write number 0, the entry of the \<open>k\<close>-th dependency is write number \<open>k\<close>), the returned
  error is the error of that write, which is not the Non-Approved failure, whatever verdicts
  came before; the log holds the verdicts of the dependencies before the failing write only,
  and the report holds the earlier writes and the part of the failing write that got through.
\<close>

theorem write_error_returned_at_once:
  assumes "script f = replicate j WriteOk @ WriteErr n msg # rest" and "j \<le> length lics"
  shows "err (checkLicenses t lics (Some (Inr f))) = Some (External msg)
     \<and> err (checkLicenses t lics (Some (Inr f))) \<noteq> Some NonApprovedLicenseFound
     \<and> logs (checkLicenses t lics (Some (Inr f))) = map (logCall (buildPolicy t)) (take (j - 1) lics)
     \<and> map_option content (report (checkLicenses t lics (Some (Inr f)))) =
         Some (content f @ concat (take j (licenseReportHeader # map entry lics))
               @ take n ((licenseReportHeader # map entry lics) ! j))"
  by (simp add: checkLicenses_write_fails [OF assms])

text \<open>
  C9 at a concrete input: the first package is Non-Approved and the write for the second
  package fails; the third package is never visited.
\<close>

theorem write_error_returned_at_once_witness:
  "script \<lparr>content = [], script = [WriteOk, WriteOk, WriteErr 0 ''disk full'']\<rparr>
     = replicate 2 WriteOk @ WriteErr 0 ''disk full'' # []
   \<and> 2 \<le> length [(''a'', \<lparr>Type = ''GPL'', Text = ''gpl''\<rparr>), (''b'', \<lparr>Type = ''MIT'', Text = ''mit''\<rparr>),
                    (''c'', \<lparr>Type = ''MIT'', Text = ''mit''\<rparr>)]
   \<and> err (checkLicenses \<lparr>Whitelist = [''MIT''], Blacklist = [], Exceptions = []\<rparr>
       [(''a'', \<lparr>Type = ''GPL'', Text = ''gpl''\<rparr>), (''b'', \<lparr>Type = ''MIT'', Text = ''mit''\<rparr>),
        (''c'', \<lparr>Type = ''MIT'', Text = ''mit''\<rparr>)]
       (Some (Inr \<lparr>content = [], script = [WriteOk, WriteOk, WriteErr 0 ''disk full'']\<rparr>)))
     = Some (External ''disk full'')
   \<and> map verdict (logs (checkLicenses \<lparr>Whitelist = [''MIT''], Blacklist = [], Exceptions = []\<rparr>
       [(''a'', \<lparr>Type = ''GPL'', Text = ''gpl''\<rparr>), (''b'', \<lparr>Type = ''MIT'', Text = ''mit''\<rparr>),
        (''c'', \<lparr>Type = ''MIT'', Text = ''mit''\<rparr>)]
       (Some (Inr \<lparr>content = [], script = [WriteOk, WriteOk, WriteErr 0 ''disk full'']\<rparr>))))
     = [NonApproved]"
proof -
  let ?f = "\<lparr>content = [], script = [WriteOk, WriteOk, WriteErr 0 ''disk full'']\<rparr>"
  let ?lics = "[(''a'', \<lparr>Type = ''GPL'', Text = ''gpl''\<rparr>), (''b'', \<lparr>Type = ''MIT'', Text = ''mit''\<rparr>),
                (''c'', \<lparr>Type = ''MIT'', Text = ''mit''\<rparr>)]"
  let ?t = "\<lparr>Whitelist = [''MIT''], Blacklist = [], Exceptions = []\<rparr>"
  have s: "script ?f = replicate 2 WriteOk @ WriteErr 0 ''disk full'' # []"
    by (simp add: numeral_2_eq_2)
  have j: "2 \<le> length ?lics"
    by simp
  have v: "verdict (logCall (buildPolicy ?t) (''a'', \<lparr>Type = ''GPL'', Text = ''gpl''\<rparr>)) = NonApproved"
    by (simp add: logCall_def decide_buildPolicy covered_def)
  from write_error_returned_at_once [OF s j, of ?t]
  have "err (checkLicenses ?t ?lics (Some (Inr ?f))) = Some (External ''disk full'')"
    and "logs (checkLicenses ?t ?lics (Some (Inr ?f))) = map (logCall (buildPolicy ?t)) (take (2 - 1) ?lics)"
    by simp_all
  with s j v show ?thesis
    by simp
qed

subsection \<open>C10: an entry made of separators and dots\<close>

text \<open>
  C10: when the exception list holds an entry that ends with the marker and consists of the
  characters \<^verbatim>\<open>/\<close> and \<^verbatim>\<open>.\<close> only, the stored wildcard key is the empty string, which is
  a prefix of every package name; every dependency that is not Approved is Exceptioned, the
  run never returns the Non-Approved failure, and it returns no error at all when there is no
  report or no write fails, whatever the blacklist holds.
\<close>

theorem empty_prefix_exempts_everything:
  assumes "v \<in> set (Exceptions t)" and "HasSuffix v ''/...''"
    and "set v \<subseteq> {CHR ''/'', CHR ''.''}"
  shows "TrimRight v ''/...'' = []
     \<and> [] \<in> set (keys (exceptionsWildcard (buildPolicy t)))
     \<and> (\<forall>pkg. HasPrefix pkg [])
     \<and> (\<forall>pkg lic. decide (buildPolicy t) pkg lic \<noteq> Approved
           \<longrightarrow> decide (buildPolicy t) pkg lic = Exceptioned)
     \<and> (\<forall>lics created. err (checkLicenses t lics created) \<noteq> Some NonApprovedLicenseFound)
     \<and> (\<forall>lics created.
           created = None \<or> (\<exists>f. created = Some (Inr f) \<and> writes_ok (Suc (length lics)) f)
           \<longrightarrow> err (checkLicenses t lics created) = None)"
proof -
  from assms(3) have "\<forall>c \<in> set (rev v). c \<in> set ''/...''"
    by auto
  then have "dropWhile (\<lambda>c. c \<in> set ''/...'') (rev v) = []"
    by (simp only: dropWhile_eq_Nil_conv)
  then have trim: "TrimRight v ''/...'' = []"
    by (simp add: TrimRight_def)
  have "TrimRight v ''/...'' \<in> {TrimRight u ''/...'' | u. u \<in> set (Exceptions t) \<and> HasSuffix u ''/...''}"
    using assms(1,2) by blast
  then have key: "[] \<in> set (keys (exceptionsWildcard (buildPolicy t)))"
    unfolding trim by (simp add: buildPolicy_def Let_def fold_addException_keys keys_make_map)
  have pre: "HasPrefix pkg []" for pkg
    by (simp add: HasPrefix_def)
  have "(if HasSuffix v ''/...'' then HasPrefix pkg (TrimRight v ''/...'') else pkg = v)" for pkg
    using assms(2) pre by (simp only: trim if_True)
  then have cov: "covered t pkg" for pkg
    unfolding covered_def list_ex_iff using assms(1) by blast
  have dec: "decide (buildPolicy t) pkg lic \<noteq> NonApproved" for pkg lic
    by (simp add: decide_buildPolicy cov)
  have exc: "decide (buildPolicy t) pkg lic \<noteq> Approved
      \<longrightarrow> decide (buildPolicy t) pkg lic = Exceptioned" for pkg lic
    by (simp add: decide_buildPolicy cov)
  have never: "err (checkLicenses t lics created) \<noteq> Some NonApprovedLicenseFound" for lics created
    by (rule checkLicenses_err) (simp add: dec)
  have ok: "created = None \<or> (\<exists>f. created = Some (Inr f) \<and> writes_ok (Suc (length lics)) f)
      \<longrightarrow> err (checkLicenses t lics created) = None" for lics created
  proof
    assume "created = None \<or> (\<exists>f. created = Some (Inr f) \<and> writes_ok (Suc (length lics)) f)"
    then show "err (checkLicenses t lics created) = None"
    proof
      assume "created = None"
      then show ?thesis by (simp add: checkLicenses_no_report dec)
    next
      assume "\<exists>f. created = Some (Inr f) \<and> writes_ok (Suc (length lics)) f"
      then obtain f where "created = Some (Inr f)" and "writes_ok (Suc (length lics)) f"
        by blast
      then show ?thesis by (simp add: checkLicenses_report_ok dec)
    qed
  qed
  show ?thesis
    using trim key pre exc never ok by (intro conjI allI)
qed

text \<open>
  C10 at a concrete input: the entry \<^verbatim>\<open>/...\<close> and a package with a blacklisted
  license.
\<close>

theorem empty_prefix_exempts_everything_witness:
  "''/...'' \<in> set (Exceptions \<lparr>Whitelist = [], Blacklist = [''GPL''], Exceptions = [''/...'']\<rparr>)
   \<and> HasSuffix ''/...'' ''/...''
   \<and> set ''/...'' \<subseteq> {CHR ''/'', CHR ''.''}
   \<and> decide (buildPolicy \<lparr>Whitelist = [], Blacklist = [''GPL''], Exceptions = [''/...'']\<rparr>)
        ''github.com/foo/bar'' \<lparr>Type = ''GPL'', Text = ''gpl''\<rparr> = Exceptioned
   \<and> err (checkLicenses \<lparr>Whitelist = [], Blacklist = [''GPL''], Exceptions = [''/...'']\<rparr>
        [(''github.com/foo/bar'', \<lparr>Type = ''GPL'', Text = ''gpl''\<rparr>)] None) = None"
proof -
  let ?t = "\<lparr>Whitelist = [], Blacklist = [''GPL''], Exceptions = [''/...'']\<rparr>"
  have a: "''/...'' \<in> set (Exceptions ?t)"
    by simp
  have b: "HasSuffix ''/...'' ''/...''"
    by (simp add: HasSuffix_def)
  have c: "set ''/...'' \<subseteq> {CHR ''/'', CHR ''.''}"
    by simp
  have d: "decide (buildPolicy ?t) ''github.com/foo/bar'' \<lparr>Type = ''GPL'', Text = ''gpl''\<rparr> \<noteq> Approved"
    by (simp add: decide_buildPolicy)
  note th = empty_prefix_exempts_everything [OF a b c]
  note th4 = th [THEN conjunct2, THEN conjunct2, THEN conjunct2, THEN conjunct1]
  note th6 = th [THEN conjunct2, THEN conjunct2, THEN conjunct2, THEN conjunct2, THEN conjunct2]
  have e: "decide (buildPolicy ?t) ''github.com/foo/bar'' \<lparr>Type = ''GPL'', Text = ''gpl''\<rparr> = Exceptioned"
    using th4 [rule_format, OF d] .
  have n: "(None :: (string + OsFile) option) = None
      \<or> (\<exists>f. None = Some (Inr f)
            \<and> writes_ok (Suc (length [(''github.com/foo/bar'', \<lparr>Type = ''GPL'', Text = ''gpl''\<rparr>)])) f)"
    by simp
  have r: "err (checkLicenses ?t [(''github.com/foo/bar'', \<lparr>Type = ''GPL'', Text = ''gpl''\<rparr>)] None) = None"
    using th6 [rule_format, OF n] .
  from a b c e r show ?thesis
    by (intro conjI)
qed

end
